theory Spec2Isabelle
  imports Complex_Main
begin

section \<open>The partition model of the image splitter (split.py)\<close>

subsection \<open>Rectangles\<close>

text \<open>
  A \<^verbatim>\<open>pygame.Rect(left, top, width, height)\<close> over the integers. The constructor
  stores the four numbers as they are given (a negative width is kept), \<^verbatim>\<open>right\<close> is
  \<^verbatim>\<open>left + width\<close> and \<^verbatim>\<open>bottom\<close> is \<^verbatim>\<open>top + height\<close>; two rectangles are equal
  when their four numbers are. Coordinates are pixel positions of a window, far from
  the limits of a C int, so they are unbounded integers here.
\<close>

datatype Rect = Rect (rect_left: int) (rect_top: int) (rect_width: int) (rect_height: int)

definition rect_right :: "Rect \<Rightarrow> int" where
  "rect_right r = rect_left r + rect_width r"

definition rect_bottom :: "Rect \<Rightarrow> int" where
  "rect_bottom r = rect_top r + rect_height r"

text \<open>
  \<^verbatim>\<open>Rect.contains(other)\<close>, the test pygame evaluates: the argument starts at or after
  the left and top edge, ends at or before the right and bottom edge, and starts
  strictly before the right and bottom edge.
\<close>

definition rect_contains :: "Rect \<Rightarrow> Rect \<Rightarrow> bool" where
  "rect_contains r a \<longleftrightarrow>
     rect_left r \<le> rect_left a \<and> rect_top r \<le> rect_top a \<and>
     rect_left r + rect_width r \<ge> rect_left a + rect_width a \<and>
     rect_top r + rect_height r \<ge> rect_top a + rect_height a \<and>
     rect_left r + rect_width r > rect_left a \<and>
     rect_top r + rect_height r > rect_top a"

text \<open>The pixels a rectangle covers: the half-open box its crop takes from the image.\<close>

definition region :: "Rect \<Rightarrow> (int \<times> int) set" where
  "region r = {(x, y). rect_left r \<le> x \<and> x < rect_right r \<and> rect_top r \<le> y \<and> y < rect_bottom r}"

subsection \<open>Split points\<close>

text \<open>
  \<^verbatim>\<open>SplitPoint.pos\<close> is \<^verbatim>\<open>pygame.Rect(x, y, 0, 0)\<close>: a rectangle of no width and no
  height that is never changed after the constructor, so only its corner is stored;
  \<open>pos_rect\<close> gives the rectangle back where the code passes it to \<^verbatim>\<open>contains\<close>.
\<close>

record SplitPoint =
  pos :: "int \<times> int"
  horizontal :: "(int \<times> int) option"
  vertical :: "(int \<times> int) option"
  index :: int

definition SplitPoint_init :: "int \<times> int \<Rightarrow> SplitPoint" where
  "SplitPoint_init point = \<lparr>pos = point, horizontal = None, vertical = None, index = 0\<rparr>"

definition pos_rect :: "SplitPoint \<Rightarrow> Rect" where
  "pos_rect p = Rect (fst (pos p)) (snd (pos p)) 0 0"

definition toggle_horizontal :: "int \<Rightarrow> SplitPoint \<Rightarrow> SplitPoint" where
  "toggle_horizontal width p =
     (if horizontal p = None then p\<lparr>horizontal := Some (0, width)\<rparr>
      else p\<lparr>horizontal := None\<rparr>)"

definition toggle_vertical :: "int \<Rightarrow> SplitPoint \<Rightarrow> SplitPoint" where
  "toggle_vertical height p =
     (if vertical p = None then p\<lparr>vertical := Some (0, height)\<rparr>
      else p\<lparr>vertical := None\<rparr>)"

definition reset_bounds :: "int \<times> int \<Rightarrow> SplitPoint \<Rightarrow> SplitPoint" where
  "reset_bounds screen p =
     (let p1 = (if horizontal p \<noteq> None then p\<lparr>horizontal := Some (0, fst screen)\<rparr> else p)
      in if vertical p1 \<noteq> None then p1\<lparr>vertical := Some (0, snd screen)\<rparr> else p1)"

text \<open>
  \<^verbatim>\<open>distance_to\<close> is the Euclidean distance, a float in the source. The code only ever
  compares it with the integer pick radius; \<open>within_radius\<close> is that comparison on
  integers, and \<open>within_radius_distance_to\<close> below shows that it is the comparison of
  the real distance.
\<close>

definition distance_to :: "SplitPoint \<Rightarrow> int \<times> int \<Rightarrow> real" where
  "distance_to p point =
     sqrt ((real_of_int (fst point - fst (pos p)))\<^sup>2 + (real_of_int (snd point - snd (pos p)))\<^sup>2)"

definition within_radius :: "SplitPoint \<Rightarrow> int \<times> int \<Rightarrow> int \<Rightarrow> bool" where
  "within_radius p point r \<longleftrightarrow>
     0 \<le> r \<and> (fst point - fst (pos p))\<^sup>2 + (snd point - snd (pos p))\<^sup>2 \<le> r\<^sup>2"

subsection \<open>The state manager\<close>

text \<open>
  Split points are objects: the list \<^verbatim>\<open>split_points\<close> and \<^verbatim>\<open>selected_point\<close> hold
  references to them, and the commands change them in place. The model keeps them in a
  store from references to values. A new object gets a reference that no live
  reference equals.
\<close>

record SplitStateManager =
  screen_size :: "int \<times> int"
  dot_radius :: int
  placing :: bool
  deleting :: bool
  store :: "nat \<Rightarrow> SplitPoint"
  split_points :: "nat list"
  selected_point :: "nat option"

definition SplitStateManager_init :: "int \<times> int \<Rightarrow> int \<Rightarrow> SplitStateManager" where
  "SplitStateManager_init screen radius =
     \<lparr>screen_size = screen, dot_radius = radius, placing = False, deleting = False,
      store = (\<lambda>_. SplitPoint_init (0, 0)), split_points = [], selected_point = None\<rparr>"

definition new_ref :: "SplitStateManager \<Rightarrow> nat" where
  "new_ref s = Suc (fold max (split_points s @ (case selected_point s of None \<Rightarrow> [] | Some a \<Rightarrow> [a])) 0)"

subsection \<open>Clipping\<close>

fun calculate_bounds :: "int \<Rightarrow> int \<Rightarrow> int \<Rightarrow> int list \<Rightarrow> int \<times> int" where
  "calculate_bounds bound lower_bound upper_bound [] = (lower_bound, upper_bound)"
| "calculate_bounds bound lower_bound upper_bound (other_bound # bounds) =
     (if bound > other_bound \<and> other_bound > lower_bound
      then calculate_bounds bound other_bound upper_bound bounds
      else if upper_bound > other_bound \<and> other_bound > bound
      then calculate_bounds bound lower_bound other_bound bounds
      else calculate_bounds bound lower_bound upper_bound bounds)"

text \<open>One round of the loop of \<^verbatim>\<open>calculate_line_rects\<close>, for the position \<open>i\<close> of the sorted list.\<close>

definition line_rects_step :: "int \<times> int \<Rightarrow> nat list \<Rightarrow> nat \<Rightarrow> (nat \<Rightarrow> SplitPoint) \<Rightarrow> (nat \<Rightarrow> SplitPoint)" where
  "line_rects_step screen points i h =
     (let point = points ! i;
          h1 = h(point := reset_bounds screen (h point));
          prior_points = filter (\<lambda>p. index (h1 p) \<noteq> index (h1 point)) (take i points)
      in if length prior_points = 0 then h1
         else
           let h2 = (case horizontal (h1 point) of
                       None \<Rightarrow> h1
                     | Some (lo, hi) \<Rightarrow>
                         h1(point := (h1 point)\<lparr>horizontal :=
                              Some (calculate_bounds (fst (pos (h1 point))) lo hi
                                (map (\<lambda>p. fst (pos (h1 p)))
                                   (filter (\<lambda>p. vertical (h1 p) \<noteq> None) prior_points)))\<rparr>))
           in (case vertical (h2 point) of
                 None \<Rightarrow> h2
               | Some (lo, hi) \<Rightarrow>
                   h2(point := (h2 point)\<lparr>vertical :=
                        Some (calculate_bounds (snd (pos (h2 point))) lo hi
                          (map (\<lambda>p. snd (pos (h2 p)))
                             (filter (\<lambda>p. horizontal (h2 p) \<noteq> None) prior_points)))\<rparr>)))"

definition calculate_line_rects :: "SplitStateManager \<Rightarrow> SplitStateManager" where
  "calculate_line_rects s =
     (let points = sort_key (\<lambda>p. index (store s p)) (split_points s)
      in s\<lparr>store := fold (line_rects_step (screen_size s) points) [0..<length points] (store s)\<rparr>)"

subsection \<open>Commands\<close>

definition add_point :: "int \<times> int \<Rightarrow> SplitStateManager \<Rightarrow> SplitStateManager" where
  "add_point current_point s =
     (case find (\<lambda>p. within_radius (store s p) current_point (dot_radius s)) (split_points s) of
        Some p \<Rightarrow> s\<lparr>selected_point := Some p\<rparr>
      | None \<Rightarrow>
          let r = new_ref s
          in s\<lparr>store := (store s)(r := SplitPoint_init current_point),
               split_points := split_points s @ [r],
               placing := False,
               selected_point := Some r\<rparr>)"

definition delete_point :: "int \<times> int \<Rightarrow> SplitStateManager \<Rightarrow> SplitStateManager" where
  "delete_point point s =
     (let s1 = (case find (\<lambda>p. within_radius (store s p) point (dot_radius s)) (split_points s) of
                  Some p \<Rightarrow>
                    s\<lparr>split_points := remove1 p (split_points s),
                      selected_point := (if Some p = selected_point s then None else selected_point s)\<rparr>
                | None \<Rightarrow> s)
      in calculate_line_rects (s1\<lparr>deleting := False\<rparr>))"

definition horizontal_split :: "SplitStateManager \<Rightarrow> SplitStateManager" where
  "horizontal_split s =
     (case selected_point s of
        None \<Rightarrow> s
      | Some a \<Rightarrow>
          calculate_line_rects
            (s\<lparr>store := (store s)(a := toggle_horizontal (fst (screen_size s)) (store s a))\<rparr>))"

definition vertical_split :: "SplitStateManager \<Rightarrow> SplitStateManager" where
  "vertical_split s =
     (case selected_point s of
        None \<Rightarrow> s
      | Some a \<Rightarrow>
          calculate_line_rects
            (s\<lparr>store := (store s)(a := toggle_vertical (snd (screen_size s)) (store s a))\<rparr>))"

definition increment_index :: "SplitStateManager \<Rightarrow> SplitStateManager" where
  "increment_index s =
     (case selected_point s of
        None \<Rightarrow> s
      | Some a \<Rightarrow>
          calculate_line_rects
            (s\<lparr>store := (store s)(a := (store s a)\<lparr>index := index (store s a) + 1\<rparr>)\<rparr>))"

definition decrement_index :: "SplitStateManager \<Rightarrow> SplitStateManager" where
  "decrement_index s =
     (case selected_point s of
        None \<Rightarrow> s
      | Some a \<Rightarrow>
          calculate_line_rects
            (s\<lparr>store := (store s)(a := (store s a)\<lparr>index := index (store s a) - 1\<rparr>)\<rparr>))"

text \<open>The six commands the shell sends.\<close>

datatype command =
  PlaceOrSelect "int \<times> int" | Delete "int \<times> int"
  | ToggleHorizontal | ToggleVertical | IncrementPriority | DecrementPriority

fun run_command :: "command \<Rightarrow> SplitStateManager \<Rightarrow> SplitStateManager" where
  "run_command (PlaceOrSelect c) s = add_point c s"
| "run_command (Delete c) s = delete_point c s"
| "run_command ToggleHorizontal s = horizontal_split s"
| "run_command ToggleVertical s = vertical_split s"
| "run_command IncrementPriority s = increment_index s"
| "run_command DecrementPriority s = decrement_index s"

subsection \<open>The events of the shell\<close>








subsection \<open>Grouping and subdivision\<close>

fun group_points_loop :: "(nat \<Rightarrow> SplitPoint) \<Rightarrow> nat list \<Rightarrow> nat list list \<Rightarrow> nat list list" where
  "group_points_loop h [] groups = groups"
| "group_points_loop h (point # points) groups =
     (if length (last groups) = 0
      then group_points_loop h points (butlast groups @ [last groups @ [point]])
      else if index (h (hd (last groups))) = index (h point)
      then group_points_loop h points (butlast groups @ [last groups @ [point]])
      else group_points_loop h points (groups @ [[point]]))"

definition group_points :: "SplitStateManager \<Rightarrow> nat list list" where
  "group_points s =
     group_points_loop (store s)
       (sort_key (\<lambda>p. index (store s p))
          (filter (\<lambda>p. horizontal (store s p) \<noteq> None \<or> vertical (store s p) \<noteq> None) (split_points s)))
       [[]]"

definition subdivide_box :: "(nat \<Rightarrow> SplitPoint) \<Rightarrow> Rect \<Rightarrow> nat list \<Rightarrow> Rect list" where
  "subdivide_box h box points =
     (let vertical_cuts =
            map (\<lambda>p. fst (pos (h p))) (filter (\<lambda>p. vertical (h p) \<noteq> None) points) @ [rect_right box];
          horizontal_cuts =
            map (\<lambda>p. snd (pos (h p))) (filter (\<lambda>p. horizontal (h p) \<noteq> None) points) @ [rect_bottom box]
      in concat (map (\<lambda>ix.
           let x1 = (if ix = 0 then rect_left box else vertical_cuts ! (ix - 1));
               x2 = vertical_cuts ! ix
           in map (\<lambda>iy.
                let y1 = (if iy = 0 then rect_top box else horizontal_cuts ! (iy - 1));
                    y2 = horizontal_cuts ! iy
                in Rect x1 y1 (x2 - x1) (y2 - y1)) [0..<length horizontal_cuts])
           [0..<length vertical_cuts]))"

text \<open>The points of a group that \<^verbatim>\<open>calculate_boxes\<close> hands to \<^verbatim>\<open>subdivide_box\<close> for a box.\<close>

definition points_in_box :: "(nat \<Rightarrow> SplitPoint) \<Rightarrow> Rect \<Rightarrow> nat list \<Rightarrow> nat list" where
  "points_in_box h box grp = filter (\<lambda>p. rect_contains box (pos_rect (h p))) grp"

text \<open>
  The \<^verbatim>\<open>for box in tuple(boxes)\<close> loop: it runs over a snapshot of the list and, for
  each box, removes the first equal rectangle from the working list and appends the
  pieces.
\<close>

fun subdivide_all :: "(nat \<Rightarrow> SplitPoint) \<Rightarrow> nat list \<Rightarrow> Rect list \<Rightarrow> Rect list \<Rightarrow> Rect list" where
  "subdivide_all h grp [] boxes = boxes"
| "subdivide_all h grp (box # snapshot) boxes =
     subdivide_all h grp snapshot
       (remove1 box boxes @ subdivide_box h box (points_in_box h box grp))"

definition calculate_boxes :: "SplitStateManager \<Rightarrow> Rect list" where
  "calculate_boxes s =
     fold (\<lambda>grp boxes. subdivide_all (store s) grp boxes boxes) (group_points s)
       [Rect 0 0 (fst (screen_size s)) (snd (screen_size s))]"

subsection \<open>What clipping computes\<close>

text \<open>
  The parts of a split point that no command of \<^verbatim>\<open>calculate_line_rects\<close> changes: its
  position, its priority, and whether each cut is active.
\<close>

definition shape :: "SplitPoint \<Rightarrow> (int \<times> int) \<times> int \<times> bool \<times> bool" where
  "shape p = (pos p, index p, horizontal p = None, vertical p = None)"

text \<open>
  The points of strictly lower priority, and the value the clipping loop leaves in a
  point of the list: each active interval is the full span narrowed by the
  perpendicular cuts of the points of strictly lower priority.
\<close>

definition lower_priority :: "(nat \<Rightarrow> SplitPoint) \<Rightarrow> nat list \<Rightarrow> nat \<Rightarrow> nat list" where
  "lower_priority h pts a = filter (\<lambda>q. index (h q) < index (h a)) pts"

definition clipped_point :: "int \<times> int \<Rightarrow> (nat \<Rightarrow> SplitPoint) \<Rightarrow> nat list \<Rightarrow> nat \<Rightarrow> SplitPoint" where
  "clipped_point screen h pts a =
     \<lparr>pos = pos (h a),
      horizontal =
        (if horizontal (h a) = None then None
         else Some (calculate_bounds (fst (pos (h a))) 0 (fst screen)
                (map (\<lambda>q. fst (pos (h q))) (filter (\<lambda>q. vertical (h q) \<noteq> None) (lower_priority h pts a))))),
      vertical =
        (if vertical (h a) = None then None
         else Some (calculate_bounds (snd (pos (h a))) 0 (snd screen)
                (map (\<lambda>q. snd (pos (h q))) (filter (\<lambda>q. horizontal (h q) \<noteq> None) (lower_priority h pts a))))),
      index = index (h a)\<rparr>"


text \<open>
  The coordinates that may clip the cuts of the point \<open>a\<close>: the x-coordinates of the
  points of strictly lower priority with a vertical cut, and the y-coordinates of those
  with a horizontal cut.
\<close>

definition vertical_cut_xs :: "SplitStateManager \<Rightarrow> nat \<Rightarrow> int list" where
  "vertical_cut_xs s a =
     map (\<lambda>q. fst (pos (store s q)))
       (filter (\<lambda>q. index (store s q) < index (store s a) \<and> vertical (store s q) \<noteq> None)
          (split_points s))"

definition horizontal_cut_ys :: "SplitStateManager \<Rightarrow> nat \<Rightarrow> int list" where
  "horizontal_cut_ys s a =
     map (\<lambda>q. snd (pos (store s q)))
       (filter (\<lambda>q. index (store s q) < index (store s a) \<and> horizontal (store s q) \<noteq> None)
          (split_points s))"



subsection \<open>Scenarios\<close>

definition run_commands :: "command list \<Rightarrow> SplitStateManager \<Rightarrow> SplitStateManager" where
  "run_commands cs s = fold run_command cs s"

text \<open>
  A 100 by 100 canvas with the point A (reference 0) at (50, 50), horizontal cut,
  priority 0, and the point B (reference 1) at (50, 80), vertical cut, priority 1. The
  intervals the two cuts hold before clipping are parameters.
\<close>

definition scenario :: "int \<times> int \<Rightarrow> int \<times> int \<Rightarrow> SplitStateManager" where
  "scenario ha vb =
     \<lparr>screen_size = (100, 100), dot_radius = 5, placing = False, deleting = False,
      store = (\<lambda>_. SplitPoint_init (0, 0))
        (0 := \<lparr>pos = (50, 50), horizontal = Some ha, vertical = None, index = 0\<rparr>,
         1 := \<lparr>pos = (50, 80), horizontal = None, vertical = Some vb, index = 1\<rparr>),
      split_points = [0, 1], selected_point = Some 1\<rparr>"

text \<open>
  Four points placed with the commands: two vertical cuts of priority 0 at x = 20 and
  x = 80, then a horizontal and a vertical cut of priority 1 between them.
\<close>

definition clip_example :: SplitStateManager where
  "clip_example =
     run_commands
       [PlaceOrSelect (20, 10), ToggleVertical,
        PlaceOrSelect (80, 90), ToggleVertical,
        PlaceOrSelect (50, 50), ToggleHorizontal, IncrementPriority,
        PlaceOrSelect (50, 30), ToggleVertical, IncrementPriority]
       (SplitStateManager_init (100, 100) 5)"

text \<open>
  A manager holding one selected point without cuts, and the four-point example with a
  fifth point of priority 1 placed and selected at (40, 70).
\<close>

definition one_point :: SplitStateManager where
  "one_point = add_point (50, 50) (SplitStateManager_init (100, 100) 5)"

definition toggle_example :: SplitStateManager where
  "toggle_example = run_commands [PlaceOrSelect (40, 70), IncrementPriority] clip_example"

text \<open>
  The containment test as the specification words it, for comparison with the test of the
  code: a position on any edge of the rectangle, the right and the bottom edge included,
  counts as inside.
\<close>

definition inside_inclusive :: "Rect \<Rightarrow> int \<times> int \<Rightarrow> bool" where
  "inside_inclusive box point \<longleftrightarrow>
     rect_left box \<le> fst point \<and> fst point \<le> rect_right box \<and>
     rect_top box \<le> snd point \<and> snd point \<le> rect_bottom box"

text \<open>
  A vertical cut of priority 0 at x = 50 and a horizontal cut of priority 1 anchored on
  it, at (50, 70): the anchor lies on the right edge of the left half.
\<close>

definition edge_example :: SplitStateManager where
  "edge_example =
     run_commands
       [PlaceOrSelect (50, 50), ToggleVertical,
        PlaceOrSelect (50, 70), ToggleHorizontal, IncrementPriority]
       (SplitStateManager_init (100, 100) 5)"

text \<open>
  Two vertical cuts of the same priority, the first one placed to the right of the second.
\<close>

definition overlap_example :: SplitStateManager where
  "overlap_example =
     run_commands
       [PlaceOrSelect (70, 50), ToggleVertical,
        PlaceOrSelect (30, 50), ToggleVertical]
       (SplitStateManager_init (100, 100) 5)"



section \<open>Properties\<close>

subsection \<open>The clipping loop in closed form\<close>

lemma shape_eqD:
  "shape p = shape q \<Longrightarrow> pos p = pos q \<and> index p = index q \<and>
     (horizontal p = None \<longleftrightarrow> horizontal q = None) \<and> (vertical p = None \<longleftrightarrow> vertical q = None)"
  by (simp add: shape_def)

lemma shape_clipped_point: "shape (clipped_point screen h pts a) = shape (h a)"
  by (simp add: shape_def clipped_point_def)

lemma shape_reset_bounds: "shape (reset_bounds screen p) = shape p"
  by (simp add: shape_def reset_bounds_def Let_def)

lemma reset_bounds_eq:
  "reset_bounds screen p =
     \<lparr>pos = pos p,
      horizontal = (if horizontal p = None then None else Some (0, fst screen)),
      vertical = (if vertical p = None then None else Some (0, snd screen)),
      index = index p\<rparr>"
  by (cases p) (simp add: reset_bounds_def Let_def)

lemma prior_points_sorted:
  assumes "sorted (map f pts)" "i < length pts"
  shows "filter (\<lambda>p. f p \<noteq> f (pts ! i)) (take i pts) = filter (\<lambda>p. (f p :: int) < f (pts ! i)) pts"
proof -
  have le: "\<forall>p \<in> set (take i pts). f p \<le> f (pts ! i)"
  proof
    fix p assume "p \<in> set (take i pts)"
    then obtain j where "j < i" "j < length pts" "p = pts ! j"
      by (auto simp: in_set_conv_nth)
    with assms show "f p \<le> f (pts ! i)"
      using sorted_nth_mono [of "map f pts" j i] by simp
  qed
  have ge: "\<forall>p \<in> set (drop i pts). f (pts ! i) \<le> f p"
  proof
    fix p assume "p \<in> set (drop i pts)"
    then obtain j where "j < length pts - i" "p = pts ! (i + j)"
      by (auto simp: in_set_conv_nth)
    with assms show "f (pts ! i) \<le> f p"
      using sorted_nth_mono [of "map f pts" i "i + j"] by simp
  qed
  have "filter (\<lambda>p. f p < f (pts ! i)) pts
      = filter (\<lambda>p. f p < f (pts ! i)) (take i pts) @ filter (\<lambda>p. f p < f (pts ! i)) (drop i pts)"
    by (metis append_take_drop_id filter_append)
  also have "filter (\<lambda>p. f p < f (pts ! i)) (drop i pts) = []"
    using ge by (auto simp: filter_empty_conv)
  also have "filter (\<lambda>p. f p < f (pts ! i)) (take i pts) = filter (\<lambda>p. f p \<noteq> f (pts ! i)) (take i pts)"
    using le by (intro filter_cong) auto
  finally show ?thesis by simp
qed

lemma line_rects_step_eq:
  assumes sh: "\<forall>b. shape (h b) = shape (h0 b)"
    and srt: "sorted (map (\<lambda>p. index (h0 p)) pts)"
    and i: "i < length pts"
  shows "line_rects_step screen pts i h = h(pts ! i := clipped_point screen h0 pts (pts ! i))"
proof -
  define point where "point = pts ! i"
  define h1 where "h1 = h(point := reset_bounds screen (h point))"
  define P where "P = filter (\<lambda>p. index (h1 p) \<noteq> index (h1 point)) (take i pts)"
  define h2 where "h2 = (case horizontal (h1 point) of
                       None \<Rightarrow> h1
                     | Some (lo, hi) \<Rightarrow>
                         h1(point := (h1 point)\<lparr>horizontal :=
                              Some (calculate_bounds (fst (pos (h1 point))) lo hi
                                (map (\<lambda>p. fst (pos (h1 p)))
                                   (filter (\<lambda>p. vertical (h1 p) \<noteq> None) P)))\<rparr>))"
  have unfold: "line_rects_step screen pts i h =
      (if length P = 0 then h1
       else (case vertical (h2 point) of
                 None \<Rightarrow> h2
               | Some (lo, hi) \<Rightarrow>
                   h2(point := (h2 point)\<lparr>vertical :=
                        Some (calculate_bounds (snd (pos (h2 point))) lo hi
                          (map (\<lambda>p. snd (pos (h2 p)))
                             (filter (\<lambda>p. horizontal (h2 p) \<noteq> None) P)))\<rparr>)))"
    by (simp only: line_rects_step_def Let_def h2_def P_def h1_def point_def)
  have sh1: "\<And>b. shape (h1 b) = shape (h0 b)"
    using sh by (simp add: h1_def shape_reset_bounds)
  have at1: "\<And>b. pos (h1 b) = pos (h0 b)" "\<And>b. index (h1 b) = index (h0 b)"
    "\<And>b. (horizontal (h1 b) = None) = (horizontal (h0 b) = None)"
    "\<And>b. (vertical (h1 b) = None) = (vertical (h0 b) = None)"
    using shape_eqD [OF sh1] by blast+
  have prior: "P = lower_priority h0 pts point"
    unfolding P_def at1 lower_priority_def point_def
    using prior_points_sorted [OF srt i] by simp
  have h1p: "h1 point = \<lparr>pos = pos (h0 point),
      horizontal = (if horizontal (h0 point) = None then None else Some (0, fst screen)),
      vertical = (if vertical (h0 point) = None then None else Some (0, snd screen)),
      index = index (h0 point)\<rparr>"
    using shape_eqD [OF sh [rule_format, of point]]
    by (simp add: h1_def reset_bounds_eq)
  have goal: "line_rects_step screen pts i h = h1(point := clipped_point screen h0 pts point)"
  proof (cases "P = []")
    case True
    have "clipped_point screen h0 pts point = h1 point"
      using True by (simp add: clipped_point_def prior [symmetric] h1p)
    then have "h1(point := clipped_point screen h0 pts point) = h1"
      by simp
    then show ?thesis
      using True by (simp add: unfold)
  next
    case False
    have h2_eq: "h2 = h1(point := (h1 point)\<lparr>horizontal := horizontal (clipped_point screen h0 pts point)\<rparr>)"
      by (cases "horizontal (h0 point) = None")
        (auto simp: h2_def h1p clipped_point_def at1 prior)
    have at2: "\<And>b. pos (h2 b) = pos (h0 b)" "\<And>b. (horizontal (h2 b) = None) = (horizontal (h0 b) = None)"
      by (auto simp: h2_eq at1 clipped_point_def)
    have maps: "map (\<lambda>p. snd (pos (h2 p))) (filter (\<lambda>p. horizontal (h2 p) \<noteq> None) P)
        = map (\<lambda>q. snd (pos (h0 q))) (filter (\<lambda>q. horizontal (h0 q) \<noteq> None) (lower_priority h0 pts point))"
      by (simp only: at2 prior)
    have h2p: "h2 point = \<lparr>pos = pos (h0 point),
        horizontal = horizontal (clipped_point screen h0 pts point),
        vertical = (if vertical (h0 point) = None then None else Some (0, snd screen)),
        index = index (h0 point)\<rparr>"
      by (simp add: h2_eq h1p)
    have "line_rects_step screen pts i h =
        h2(point := (case vertical (h2 point) of
                 None \<Rightarrow> h2 point
               | Some (lo, hi) \<Rightarrow>
                   (h2 point)\<lparr>vertical :=
                        Some (calculate_bounds (snd (pos (h2 point))) lo hi
                          (map (\<lambda>p. snd (pos (h2 p)))
                             (filter (\<lambda>p. horizontal (h2 p) \<noteq> None) P)))\<rparr>))"
      using False unfolding unfold by (simp split: option.splits)
    also have "(case vertical (h2 point) of
                 None \<Rightarrow> h2 point
               | Some (lo, hi) \<Rightarrow>
                   (h2 point)\<lparr>vertical :=
                        Some (calculate_bounds (snd (pos (h2 point))) lo hi
                          (map (\<lambda>p. snd (pos (h2 p)))
                             (filter (\<lambda>p. horizontal (h2 p) \<noteq> None) P)))\<rparr>)
          = clipped_point screen h0 pts point"
      unfolding maps by (simp add: h2p clipped_point_def)
    finally show ?thesis
      by (auto simp: h2_eq fun_eq_iff)
  qed
  then show ?thesis
    by (simp add: h1_def point_def)
qed

lemma line_rects_fold:
  assumes srt: "sorted (map (\<lambda>p. index (h0 p)) pts)" and n: "n \<le> length pts"
  shows "fold (line_rects_step screen pts) [0..<n] h0
       = (\<lambda>b. if b \<in> set (take n pts) then clipped_point screen h0 pts b else h0 b)"
  using n
proof (induction n)
  case 0
  then show ?case by simp
next
  case (Suc n)
  let ?h = "\<lambda>b. if b \<in> set (take n pts) then clipped_point screen h0 pts b else h0 b"
  have sh: "\<forall>b. shape (?h b) = shape (h0 b)"
    by (simp add: shape_clipped_point)
  have "fold (line_rects_step screen pts) [0..<Suc n] h0 = line_rects_step screen pts n ?h"
    using Suc by simp
  also have "\<dots> = ?h(pts ! n := clipped_point screen h0 pts (pts ! n))"
    using line_rects_step_eq [OF sh srt] Suc.prems by simp
  also have "\<dots> = (\<lambda>b. if b \<in> set (take (Suc n) pts) then clipped_point screen h0 pts b else h0 b)"
    using Suc.prems by (auto simp: take_Suc_conv_app_nth fun_eq_iff)
  finally show ?case .
qed


lemma calculate_bounds_fold:
  "calculate_bounds b lo hi xs =
     (fold max (filter (\<lambda>x. x < b) xs) lo, fold min (filter (\<lambda>x. b < x) xs) hi)"
  by (induction xs arbitrary: lo hi) (auto simp: max_def min_def)

lemma calculate_bounds_Max_Min:
  "calculate_bounds b lo hi xs =
     (Max (set (lo # filter (\<lambda>x. x < b) xs)), Min (set (hi # filter (\<lambda>x. b < x) xs)))"
  by (simp only: calculate_bounds_fold Max.set_eq_fold Min.set_eq_fold)

lemma calculate_bounds_set_cong:
  "set xs = set ys \<Longrightarrow> calculate_bounds b lo hi xs = calculate_bounds b lo hi ys"
  by (simp add: calculate_bounds_Max_Min)

lemma calculate_bounds_anchor:
  "lo \<le> b \<Longrightarrow> b < hi \<Longrightarrow> fst (calculate_bounds b lo hi xs) \<le> b \<and> b < snd (calculate_bounds b lo hi xs)"
  by (induction xs arbitrary: lo hi) auto

lemma set_lower_priority_cong:
  "set pts = set pts' \<Longrightarrow> set (lower_priority h pts a) = set (lower_priority h pts' a)"
  by (simp add: lower_priority_def)

lemma clipped_point_set_cong:
  assumes "set pts = set pts'"
  shows "clipped_point screen h pts a = clipped_point screen h pts' a"
proof -
  have "calculate_bounds (fst (pos (h a))) 0 (fst screen)
          (map (\<lambda>q. fst (pos (h q))) (filter (\<lambda>q. vertical (h q) \<noteq> None) (lower_priority h pts a)))
      = calculate_bounds (fst (pos (h a))) 0 (fst screen)
          (map (\<lambda>q. fst (pos (h q))) (filter (\<lambda>q. vertical (h q) \<noteq> None) (lower_priority h pts' a)))"
    using set_lower_priority_cong [OF assms, of h a]
    by (intro calculate_bounds_set_cong) simp
  moreover have "calculate_bounds (snd (pos (h a))) 0 (snd screen)
          (map (\<lambda>q. snd (pos (h q))) (filter (\<lambda>q. horizontal (h q) \<noteq> None) (lower_priority h pts a)))
      = calculate_bounds (snd (pos (h a))) 0 (snd screen)
          (map (\<lambda>q. snd (pos (h q))) (filter (\<lambda>q. horizontal (h q) \<noteq> None) (lower_priority h pts' a)))"
    using set_lower_priority_cong [OF assms, of h a]
    by (intro calculate_bounds_set_cong) simp
  ultimately show ?thesis
    by (simp add: clipped_point_def)
qed

lemma store_calculate_line_rects:
  "store (calculate_line_rects s) =
     (\<lambda>b. if b \<in> set (split_points s)
          then clipped_point (screen_size s) (store s) (split_points s) b else store s b)"
proof -
  define pts where "pts = sort_key (\<lambda>p. index (store s p)) (split_points s)"
  have srt: "sorted (map (\<lambda>p. index (store s p)) pts)"
    by (simp add: pts_def)
  have set_pts: "set pts = set (split_points s)"
    by (simp add: pts_def)
  have cp: "\<And>b. clipped_point (screen_size s) (store s) pts b
      = clipped_point (screen_size s) (store s) (split_points s) b"
    by (rule clipped_point_set_cong) (rule set_pts)
  have "store (calculate_line_rects s)
      = fold (line_rects_step (screen_size s) pts) [0..<length pts] (store s)"
    by (simp add: calculate_line_rects_def Let_def pts_def)
  also have "\<dots> = (\<lambda>b. if b \<in> set (take (length pts) pts)
              then clipped_point (screen_size s) (store s) pts b else store s b)"
    by (rule line_rects_fold [OF srt]) simp
  finally show ?thesis
    by (simp add: cp set_pts cong: if_cong)
qed

lemma calculate_line_rects_fields [simp]:
  "screen_size (calculate_line_rects s) = screen_size s"
  "dot_radius (calculate_line_rects s) = dot_radius s"
  "placing (calculate_line_rects s) = placing s"
  "deleting (calculate_line_rects s) = deleting s"
  "split_points (calculate_line_rects s) = split_points s"
  "selected_point (calculate_line_rects s) = selected_point s"
  by (simp_all add: calculate_line_rects_def Let_def)

lemma shape_calculate_line_rects: "shape (store (calculate_line_rects s) b) = shape (store s b)"
  by (simp add: store_calculate_line_rects shape_clipped_point)



subsection \<open>Subdivision without cuts\<close>

lemma subdivide_box_no_points:
  "subdivide_box h box [] =
     [Rect (rect_left box) (rect_top box) (rect_right box - rect_left box) (rect_bottom box - rect_top box)]"
  by (simp add: subdivide_box_def Let_def)

lemma group_points_no_cuts:
  assumes "\<forall>p \<in> set (split_points s). horizontal (store s p) = None \<and> vertical (store s p) = None"
  shows "group_points s = [[]]"
proof -
  have "filter (\<lambda>p. horizontal (store s p) \<noteq> None \<or> vertical (store s p) \<noteq> None) (split_points s) = []"
    using assms by (simp add: filter_empty_conv)
  then show ?thesis by (simp add: group_points_def)
qed

text \<open>
  Claim C4. When no point of the point set has an active horizontal or vertical cut (the
  empty point set included), \<^verbatim>\<open>calculate_boxes\<close> returns exactly one rectangle, the full
  canvas (0, 0, width, height).
\<close>

theorem calculate_boxes_no_cuts:
  assumes "\<forall>p \<in> set (split_points s). horizontal (store s p) = None \<and> vertical (store s p) = None"
  shows "calculate_boxes s = [Rect 0 0 (fst (screen_size s)) (snd (screen_size s))]"
  using group_points_no_cuts [OF assms]
  by (simp add: calculate_boxes_def points_in_box_def subdivide_box_no_points rect_right_def rect_bottom_def)

theorem calculate_boxes_no_cuts_witness:
  "split_points (add_point (30, 40) (SplitStateManager_init (100, 80) 5)) = [1] \<and>
   horizontal (store (add_point (30, 40) (SplitStateManager_init (100, 80) 5)) 1) = None \<and>
   vertical (store (add_point (30, 40) (SplitStateManager_init (100, 80) 5)) 1) = None \<and>
   calculate_boxes (add_point (30, 40) (SplitStateManager_init (100, 80) 5)) = [Rect 0 0 100 80]"
proof -
  let ?s = "add_point (30, 40) (SplitStateManager_init (100, 80) 5)"
  have pts: "split_points ?s = [1]"
    by (simp add: add_point_def SplitStateManager_init_def new_ref_def Let_def)
  have none: "horizontal (store ?s 1) = None \<and> vertical (store ?s 1) = None"
    by (simp add: add_point_def SplitStateManager_init_def new_ref_def Let_def SplitPoint_init_def)
  have scr: "screen_size ?s = (100, 80)"
    by (simp add: add_point_def SplitStateManager_init_def new_ref_def Let_def)
  have "\<forall>p \<in> set (split_points ?s). horizontal (store ?s p) = None \<and> vertical (store ?s p) = None"
    using none by (simp add: pts)
  from calculate_boxes_no_cuts [OF this] show ?thesis
    using none pts scr by simp
qed

subsection \<open>The two-point scenario\<close>

text \<open>
  Claim C3. On a 100 by 100 canvas with point A at (50, 50), horizontal cut, priority 0,
  and point B at (50, 80), vertical cut, priority 1, \<^verbatim>\<open>calculate_line_rects\<close> leaves A's
  horizontal interval at (0, 100) and clips B's vertical interval to (50, 100), and
  \<^verbatim>\<open>calculate_boxes\<close> then returns exactly the rectangles (0, 0, 100, 50),
  (0, 50, 50, 50) and (50, 50, 50, 50).
\<close>

theorem scenario_clipping_and_boxes:
  "horizontal (store (calculate_line_rects (scenario ha vb)) 0) = Some (0, 100) \<and>
   vertical (store (calculate_line_rects (scenario ha vb)) 1) = Some (50, 100) \<and>
   calculate_boxes (calculate_line_rects (scenario ha vb)) =
     [Rect 0 0 100 50, Rect 0 50 50 50, Rect 50 50 50 50]"
  by (simp add: scenario_def calculate_line_rects_def SplitPoint_init_def
      line_rects_step_def reset_bounds_def Let_def calculate_boxes_def group_points_def
      points_in_box_def subdivide_box_def rect_contains_def pos_rect_def rect_right_def rect_bottom_def)

subsection \<open>Clipped intervals\<close>

lemma lower_priority_cuts:
  "map (\<lambda>q. fst (pos (store s q))) (filter (\<lambda>q. vertical (store s q) \<noteq> None) (lower_priority (store s) (split_points s) a))
     = vertical_cut_xs s a"
  "map (\<lambda>q. snd (pos (store s q))) (filter (\<lambda>q. horizontal (store s q) \<noteq> None) (lower_priority (store s) (split_points s) a))
     = horizontal_cut_ys s a"
  by (simp_all add: vertical_cut_xs_def horizontal_cut_ys_def lower_priority_def)

lemma cuts_calculate_line_rects:
  "vertical_cut_xs (calculate_line_rects s) a = vertical_cut_xs s a"
  "horizontal_cut_ys (calculate_line_rects s) a = horizontal_cut_ys s a"
proof -
  have at: "\<And>b. pos (store (calculate_line_rects s) b) = pos (store s b)"
    "\<And>b. index (store (calculate_line_rects s) b) = index (store s b)"
    "\<And>b. (horizontal (store (calculate_line_rects s) b) = None) = (horizontal (store s b) = None)"
    "\<And>b. (vertical (store (calculate_line_rects s) b) = None) = (vertical (store s b) = None)"
    using shape_eqD [OF shape_calculate_line_rects] by blast+
  show "vertical_cut_xs (calculate_line_rects s) a = vertical_cut_xs s a"
    "horizontal_cut_ys (calculate_line_rects s) a = horizontal_cut_ys s a"
    by (simp_all only: vertical_cut_xs_def horizontal_cut_ys_def at calculate_line_rects_fields)
qed

lemma clipped_point_cuts:
  "clipped_point (screen_size s) (store s) (split_points s) a =
     \<lparr>pos = pos (store s a),
      horizontal =
        (if horizontal (store s a) = None then None
         else Some (calculate_bounds (fst (pos (store s a))) 0 (fst (screen_size s)) (vertical_cut_xs s a))),
      vertical =
        (if vertical (store s a) = None then None
         else Some (calculate_bounds (snd (pos (store s a))) 0 (snd (screen_size s)) (horizontal_cut_ys s a))),
      index = index (store s a)\<rparr>"
  by (simp only: clipped_point_def lower_priority_cuts)

lemma horizontal_calculate_line_rects:
  assumes "a \<in> set (split_points s)"
  shows "horizontal (store (calculate_line_rects s) a) =
     (if horizontal (store s a) = None then None
      else Some (calculate_bounds (fst (pos (store s a))) 0 (fst (screen_size s)) (vertical_cut_xs s a)))"
  using assms by (simp add: store_calculate_line_rects clipped_point_cuts)

lemma vertical_calculate_line_rects:
  assumes "a \<in> set (split_points s)"
  shows "vertical (store (calculate_line_rects s) a) =
     (if vertical (store s a) = None then None
      else Some (calculate_bounds (snd (pos (store s a))) 0 (snd (screen_size s)) (horizontal_cut_ys s a)))"
  using assms by (simp add: store_calculate_line_rects clipped_point_cuts)

lemma pos_calculate_line_rects: "pos (store (calculate_line_rects s) a) = pos (store s a)"
  using shape_eqD [OF shape_calculate_line_rects] by blast

lemmas eval_defs = run_commands_def add_point_def horizontal_split_def vertical_split_def
  increment_index_def decrement_index_def delete_point_def SplitStateManager_init_def new_ref_def
  SplitPoint_init_def within_radius_def toggle_horizontal_def toggle_vertical_def
  calculate_line_rects_def line_rects_step_def reset_bounds_def Let_def

lemma clip_example_state:
  "split_points clip_example = [1, 2, 3, 4]"
  "screen_size clip_example = (100, 100)"
  "store clip_example (Suc 0) = \<lparr>pos = (20, 10), horizontal = None, vertical = Some (0, 100), index = 0\<rparr>"
  "store clip_example 2 = \<lparr>pos = (80, 90), horizontal = None, vertical = Some (0, 100), index = 0\<rparr>"
  "store clip_example 3 = \<lparr>pos = (50, 50), horizontal = Some (20, 80), vertical = None, index = 1\<rparr>"
  "store clip_example 4 = \<lparr>pos = (50, 30), horizontal = None, vertical = Some (0, 100), index = 1\<rparr>"
  by (simp_all add: clip_example_def eval_defs)


text \<open>
  Claim C2. After \<^verbatim>\<open>calculate_line_rects\<close>, a point P of the point set with an active
  horizontal cut has the horizontal interval (lo, hi), where lo is the maximum of 0 and
  the x-coordinates strictly below P's x of the points of strictly lower priority with a
  vertical cut, and hi is the minimum of the canvas width and those x-coordinates
  strictly above P's x. A point whose x equals P's is in neither set, and a point of P's
  own priority is not among the clipping points. The same holds for the vertical
  interval, with the y-coordinates of the points of strictly lower priority with a
  horizontal cut and the canvas height.
\<close>

theorem calculate_line_rects_intervals:
  assumes "a \<in> set (split_points (calculate_line_rects s))"
  shows "(horizontal (store (calculate_line_rects s) a) \<noteq> None \<longrightarrow>
            horizontal (store (calculate_line_rects s) a) =
              Some (Max (set (0 # filter (\<lambda>x. x < fst (pos (store (calculate_line_rects s) a)))
                                    (vertical_cut_xs (calculate_line_rects s) a))),
                    Min (set (fst (screen_size (calculate_line_rects s)) #
                              filter (\<lambda>x. fst (pos (store (calculate_line_rects s) a)) < x)
                                    (vertical_cut_xs (calculate_line_rects s) a))))) \<and>
         (vertical (store (calculate_line_rects s) a) \<noteq> None \<longrightarrow>
            vertical (store (calculate_line_rects s) a) =
              Some (Max (set (0 # filter (\<lambda>y. y < snd (pos (store (calculate_line_rects s) a)))
                                    (horizontal_cut_ys (calculate_line_rects s) a))),
                    Min (set (snd (screen_size (calculate_line_rects s)) #
                              filter (\<lambda>y. snd (pos (store (calculate_line_rects s) a)) < y)
                                    (horizontal_cut_ys (calculate_line_rects s) a)))))"
proof -
  have a: "a \<in> set (split_points s)"
    using assms by simp
  show ?thesis
    unfolding cuts_calculate_line_rects pos_calculate_line_rects calculate_line_rects_fields
      horizontal_calculate_line_rects [OF a] vertical_calculate_line_rects [OF a]
    by (simp add: calculate_bounds_Max_Min)
qed

theorem calculate_line_rects_intervals_witness:
  "3 \<in> set (split_points (calculate_line_rects clip_example)) \<and>
   horizontal (store (calculate_line_rects clip_example) 3) = Some (20, 80) \<and>
   4 \<in> set (split_points (calculate_line_rects clip_example)) \<and>
   vertical (store (calculate_line_rects clip_example) 4) = Some (0, 100)"
proof -
  let ?s = "calculate_line_rects clip_example"
  have xs: "vertical_cut_xs ?s 3 = [20, 80]" and ys: "horizontal_cut_ys ?s 4 = []"
    unfolding cuts_calculate_line_rects
    by (simp_all add: vertical_cut_xs_def horizontal_cut_ys_def clip_example_state)
  have active: "horizontal (store ?s 3) \<noteq> None" "vertical (store ?s 4) \<noteq> None"
    by (simp_all add: horizontal_calculate_line_rects vertical_calculate_line_rects clip_example_state)
  have at: "pos (store ?s 3) = (50, 50)" "pos (store ?s 4) = (50, 30)"
    by (simp_all add: pos_calculate_line_rects clip_example_state)
  have m3: "3 \<in> set (split_points ?s)" and m4: "4 \<in> set (split_points ?s)"
    by (simp_all add: clip_example_state)
  show ?thesis
    using calculate_line_rects_intervals [OF m3] calculate_line_rects_intervals [OF m4]
      active m3 m4
    by (simp add: xs ys at clip_example_state)
qed


text \<open>
  Claim C10. After \<^verbatim>\<open>calculate_line_rects\<close>, an active cut interval contains its
  anchor's own coordinate: for a point of the point set with 0 \<le> x < width and the
  horizontal interval (lo, hi), lo \<le> x < hi; and for 0 \<le> y < height and the vertical
  interval (lo, hi), lo \<le> y < hi.
\<close>

theorem calculate_line_rects_contains_anchor:
  assumes "a \<in> set (split_points (calculate_line_rects s))"
  shows "(\<forall>lo hi. horizontal (store (calculate_line_rects s) a) = Some (lo, hi) \<and>
              0 \<le> fst (pos (store (calculate_line_rects s) a)) \<and>
              fst (pos (store (calculate_line_rects s) a)) < fst (screen_size (calculate_line_rects s))
            \<longrightarrow> lo \<le> fst (pos (store (calculate_line_rects s) a)) \<and>
                fst (pos (store (calculate_line_rects s) a)) < hi) \<and>
         (\<forall>lo hi. vertical (store (calculate_line_rects s) a) = Some (lo, hi) \<and>
              0 \<le> snd (pos (store (calculate_line_rects s) a)) \<and>
              snd (pos (store (calculate_line_rects s) a)) < snd (screen_size (calculate_line_rects s))
            \<longrightarrow> lo \<le> snd (pos (store (calculate_line_rects s) a)) \<and>
                snd (pos (store (calculate_line_rects s) a)) < hi)"
proof -
  have a: "a \<in> set (split_points s)"
    using assms by simp
  show ?thesis
    unfolding pos_calculate_line_rects calculate_line_rects_fields
      horizontal_calculate_line_rects [OF a] vertical_calculate_line_rects [OF a]
    using calculate_bounds_anchor [of 0 "fst (pos (store s a))" "fst (screen_size s)" "vertical_cut_xs s a"]
      calculate_bounds_anchor [of 0 "snd (pos (store s a))" "snd (screen_size s)" "horizontal_cut_ys s a"]
    by (auto split: if_splits)
qed


theorem calculate_line_rects_contains_anchor_witness:
  "3 \<in> set (split_points (calculate_line_rects clip_example)) \<and>
   horizontal (store (calculate_line_rects clip_example) 3) = Some (20, 80) \<and>
   fst (pos (store (calculate_line_rects clip_example) 3)) = 50 \<and>
   (20 :: int) \<le> 50 \<and> (50 :: int) < 80"
proof -
  let ?s = "calculate_line_rects clip_example"
  have m3: "3 \<in> set (split_points ?s)"
    by (simp add: clip_example_state)
  have h: "horizontal (store ?s 3) = Some (20, 80)"
    using m3 by (simp add: horizontal_calculate_line_rects vertical_cut_xs_def clip_example_state)
  have at: "fst (pos (store ?s 3)) = 50" "fst (screen_size ?s) = 100"
    by (simp_all add: pos_calculate_line_rects clip_example_state)
  show ?thesis
    using calculate_line_rects_contains_anchor [OF m3] m3 h at by simp
qed

subsection \<open>Commands without a selection\<close>

lemma run_command_no_selection:
  assumes "selected_point s = None"
    and "c \<in> {ToggleHorizontal, ToggleVertical, IncrementPriority, DecrementPriority}"
  shows "run_command c s = s"
  using assms
  by (auto simp: horizontal_split_def vertical_split_def increment_index_def decrement_index_def)

lemma run_commands_no_selection:
  assumes "selected_point s = None"
    and "set cs \<subseteq> {ToggleHorizontal, ToggleVertical, IncrementPriority, DecrementPriority}"
  shows "run_commands cs s = s"
  using assms(2)
proof (induction cs)
  case Nil
  then show ?case by (simp add: run_commands_def)
next
  case (Cons c cs)
  then have "run_command c s = s"
    using run_command_no_selection [OF assms(1), of c] by simp
  with Cons show ?case by (simp add: run_commands_def)
qed

text \<open>
  Claim C9. When the delete command removes the currently selected point, the selection
  is cleared, and every following toggle-horizontal, toggle-vertical, increment-priority
  or decrement-priority call, alone or in any sequence, leaves the whole state of the
  model unchanged.
\<close>

theorem delete_selected_point:
  assumes "find (\<lambda>p. within_radius (store s p) c (dot_radius s)) (split_points s) = Some a"
    and "selected_point s = Some a"
  shows "selected_point (delete_point c s) = None \<and>
         horizontal_split (delete_point c s) = delete_point c s \<and>
         vertical_split (delete_point c s) = delete_point c s \<and>
         increment_index (delete_point c s) = delete_point c s \<and>
         decrement_index (delete_point c s) = delete_point c s \<and>
         (\<forall>cs. set cs \<subseteq> {ToggleHorizontal, ToggleVertical, IncrementPriority, DecrementPriority}
            \<longrightarrow> run_commands cs (delete_point c s) = delete_point c s)"
proof -
  have none: "selected_point (delete_point c s) = None"
    using assms by (simp add: delete_point_def Let_def)
  then show ?thesis
    using run_commands_no_selection [OF none]
    by (simp add: horizontal_split_def vertical_split_def increment_index_def decrement_index_def)
qed

theorem delete_selected_point_witness:
  "selected_point one_point = Some 1 \<and>
   selected_point (delete_point (52, 51) one_point) = None \<and>
   run_commands [ToggleHorizontal, IncrementPriority, ToggleVertical, DecrementPriority]
     (delete_point (52, 51) one_point) = delete_point (52, 51) one_point"
proof -
  have f: "find (\<lambda>p. within_radius (store one_point p) (52, 51) (dot_radius one_point))
             (split_points one_point) = Some 1"
    by (simp add: one_point_def eval_defs)
  have sel: "selected_point one_point = Some 1"
    by (simp add: one_point_def eval_defs)
  have cs: "set [ToggleHorizontal, IncrementPriority, ToggleVertical, DecrementPriority]
      \<subseteq> {ToggleHorizontal, ToggleVertical, IncrementPriority, DecrementPriority}"
    by simp
  show ?thesis
    using delete_selected_point [OF f sel] sel cs by blast
qed


subsection \<open>Toggling twice\<close>

lemma shape_store_calculate_line_rects:
  "(horizontal (store (calculate_line_rects s) a) = None) = (horizontal (store s a) = None)"
  "(vertical (store (calculate_line_rects s) a) = None) = (vertical (store s a) = None)"
  using shape_eqD [OF shape_calculate_line_rects] by blast+

text \<open>
  Claim C7. For the selected point and each axis: when the axis has no cut, toggling it
  twice in succession (\<^verbatim>\<open>horizontal_split\<close> twice, or \<^verbatim>\<open>vertical_split\<close> twice) leaves
  the axis without a cut again, whatever clipped interval it held after the first toggle.
\<close>

theorem toggle_twice:
  assumes "selected_point s = Some a"
  shows "(horizontal (store s a) = None \<longrightarrow>
            horizontal (store (horizontal_split s) a) \<noteq> None \<and>
            horizontal (store (horizontal_split (horizontal_split s)) a) = None) \<and>
         (vertical (store s a) = None \<longrightarrow>
            vertical (store (vertical_split s) a) \<noteq> None \<and>
            vertical (store (vertical_split (vertical_split s)) a) = None)"
  using assms
  by (simp add: horizontal_split_def vertical_split_def shape_store_calculate_line_rects
      toggle_horizontal_def toggle_vertical_def)


lemma toggle_example_state:
  "selected_point toggle_example = Some 5"
  "horizontal (store toggle_example 5) = None"
  "vertical (store toggle_example 5) = None"
  "horizontal (store (horizontal_split toggle_example) 5) = Some (20, 80)"
  by (simp_all add: toggle_example_def clip_example_def eval_defs)

theorem toggle_twice_witness:
  "selected_point toggle_example = Some 5 \<and>
   horizontal (store toggle_example 5) = None \<and>
   horizontal (store (horizontal_split toggle_example) 5) = Some (20, 80) \<and>
   horizontal (store (horizontal_split (horizontal_split toggle_example)) 5) = None \<and>
   vertical (store toggle_example 5) = None \<and>
   vertical (store (vertical_split (vertical_split toggle_example)) 5) = None"
  using toggle_twice [OF toggle_example_state(1)] toggle_example_state by simp

subsection \<open>The pick radius\<close>

text \<open>
  The comparison of the model is the comparison of the real distance with the radius.
  (The source computes the distance in floating point, which is exact for the pixel
  coordinates of a window.)
\<close>

lemma within_radius_distance_to:
  "within_radius p point r \<longleftrightarrow> distance_to p point \<le> real_of_int r"
proof (cases "0 \<le> r")
  case True
  let ?d = "(fst point - fst (pos p))\<^sup>2 + (snd point - snd (pos p))\<^sup>2"
  have "distance_to p point = sqrt (real_of_int ?d)"
    by (simp add: distance_to_def)
  moreover have "real_of_int r = sqrt (real_of_int (r\<^sup>2))"
    using True by simp
  ultimately have "distance_to p point \<le> real_of_int r \<longleftrightarrow> real_of_int ?d \<le> real_of_int (r\<^sup>2)"
    by (simp only: real_sqrt_le_iff)
  also have "\<dots> \<longleftrightarrow> ?d \<le> r\<^sup>2"
    by (simp only: of_int_le_iff)
  finally show ?thesis
    using True by (simp add: within_radius_def)
next
  case False
  have "0 \<le> distance_to p point"
    by (simp add: distance_to_def)
  with False show ?thesis
    by (simp add: within_radius_def)
qed


subsection \<open>Placing and selecting\<close>

lemma new_ref_fresh: "p \<in> set (split_points s) \<Longrightarrow> p < new_ref s"
proof -
  assume "p \<in> set (split_points s)"
  then have "p \<in> set (0 # split_points s @ (case selected_point s of None \<Rightarrow> [] | Some a \<Rightarrow> [a]))"
    by simp
  then have "p \<le> Max (set (0 # split_points s @ (case selected_point s of None \<Rightarrow> [] | Some a \<Rightarrow> [a])))"
    by (rule Max_ge [OF finite_set])
  then show ?thesis
    by (simp only: new_ref_def Max.set_eq_fold less_Suc_eq_le)
qed

lemma new_ref_notin: "new_ref s \<notin> set (split_points s)"
  using new_ref_fresh [of "new_ref s" s] by auto

lemma find_append_last:
  assumes "\<forall>x \<in> set xs. \<not> P x" and "P y"
  shows "find P (xs @ [y]) = Some y"
  using assms by (induction xs) auto

lemma add_point_creates:
  assumes "find (\<lambda>p. within_radius (store s p) c (dot_radius s)) (split_points s) = None"
  shows "add_point c s =
     s\<lparr>store := (store s)(new_ref s := SplitPoint_init c),
       split_points := split_points s @ [new_ref s],
       placing := False,
       selected_point := Some (new_ref s)\<rparr>"
  using assms by (simp add: add_point_def Let_def)

text \<open>
  Claim C8. When a place-or-select command at the location L creates a new point (no
  point of the point set lies within the pick radius of L), a place-or-select command at
  the same L that follows at once selects that same point and creates no duplicate: the
  point set and the whole state stay as the first command left them. The pick radius is
  not negative (the program's is 5).
\<close>

theorem add_point_twice:
  assumes "find (\<lambda>p. within_radius (store s p) c (dot_radius s)) (split_points s) = None"
    and "0 \<le> dot_radius s"
  shows "new_ref s \<notin> set (split_points s) \<and>
         split_points (add_point c s) = split_points s @ [new_ref s] \<and>
         selected_point (add_point c s) = Some (new_ref s) \<and>
         pos (store (add_point c s) (new_ref s)) = c \<and>
         selected_point (add_point c (add_point c s)) = Some (new_ref s) \<and>
         split_points (add_point c (add_point c s)) = split_points (add_point c s) \<and>
         add_point c (add_point c s) = add_point c s"
proof -
  let ?r = "new_ref s"
  let ?s1 = "add_point c s"
  have s1: "?s1 = s\<lparr>store := (store s)(?r := SplitPoint_init c),
       split_points := split_points s @ [?r], placing := False, selected_point := Some ?r\<rparr>"
    by (rule add_point_creates [OF assms(1)])
  have old: "\<forall>p \<in> set (split_points s). \<not> within_radius (store ?s1 p) c (dot_radius ?s1)"
  proof
    fix p assume p: "p \<in> set (split_points s)"
    then have "p \<noteq> ?r" using new_ref_notin by auto
    moreover have "\<not> within_radius (store s p) c (dot_radius s)"
      using assms(1) p by (simp add: find_None_iff)
    ultimately show "\<not> within_radius (store ?s1 p) c (dot_radius ?s1)"
      by (simp add: s1)
  qed
  have new: "within_radius (store ?s1 ?r) c (dot_radius ?s1)"
    using assms(2) by (simp add: s1 within_radius_def SplitPoint_init_def)
  have "find (\<lambda>p. within_radius (store ?s1 p) c (dot_radius ?s1)) (split_points s @ [?r]) = Some ?r"
    by (rule find_append_last [OF old new])
  then have f: "find (\<lambda>p. within_radius (store ?s1 p) c (dot_radius ?s1)) (split_points ?s1) = Some ?r"
    by (simp add: s1)
  have sel: "selected_point ?s1 = Some ?r"
    by (simp add: s1)
  have "add_point c ?s1 = ?s1\<lparr>selected_point := Some ?r\<rparr>"
    using f by (simp add: add_point_def [of c ?s1])
  also have "\<dots> = ?s1"
    using sel by simp
  finally have same: "add_point c ?s1 = ?s1" .
  show ?thesis
    unfolding same
    by (simp add: s1 new_ref_notin SplitPoint_init_def)
qed


theorem add_point_twice_witness:
  "find (\<lambda>p. within_radius (store clip_example p) (60, 60) (dot_radius clip_example))
     (split_points clip_example) = None \<and>
   0 \<le> dot_radius clip_example \<and>
   split_points (add_point (60, 60) clip_example) = [1, 2, 3, 4, 5] \<and>
   selected_point (add_point (60, 60) clip_example) = Some 5 \<and>
   selected_point (add_point (60, 60) (add_point (60, 60) clip_example)) = Some 5 \<and>
   split_points (add_point (60, 60) (add_point (60, 60) clip_example)) = [1, 2, 3, 4, 5]"
proof -
  have f: "find (\<lambda>p. within_radius (store clip_example p) (60, 60) (dot_radius clip_example))
     (split_points clip_example) = None"
    by (simp add: clip_example_def eval_defs)
  have r: "0 \<le> dot_radius clip_example"
    by (simp add: clip_example_def eval_defs)
  have n: "new_ref clip_example = 5" "split_points clip_example = [1, 2, 3, 4]"
    by (simp_all add: clip_example_def eval_defs)
  show ?thesis
    using add_point_twice [OF f r] f r by (simp add: n)
qed


subsection \<open>Every reachable state is clipped\<close>


















subsection \<open>Which points subdivide a box\<close>

lemmas box_defs = calculate_boxes_def group_points_def points_in_box_def subdivide_box_def
  rect_contains_def pos_rect_def rect_right_def rect_bottom_def

text \<open>
  Claim C5, as the code has it. In \<^verbatim>\<open>calculate_boxes\<close>, for each working rectangle and
  each group, the points handed to \<^verbatim>\<open>subdivide_box\<close> are exactly the group's points
  whose position lies in the half-open extent of the rectangle, left \<le> x < right and
  top \<le> y < bottom: a position on the left or top edge counts as inside, a position on
  the right or bottom edge does not.
\<close>

theorem points_in_box_half_open:
  "points_in_box h box grp =
     filter (\<lambda>p. rect_left box \<le> fst (pos (h p)) \<and> fst (pos (h p)) < rect_right box \<and>
                 rect_top box \<le> snd (pos (h p)) \<and> snd (pos (h p)) < rect_bottom box) grp \<and>
   subdivide_all h grp (box # snapshot) boxes =
     subdivide_all h grp snapshot
       (remove1 box boxes @
        subdivide_box h box
          (filter (\<lambda>p. rect_left box \<le> fst (pos (h p)) \<and> fst (pos (h p)) < rect_right box \<and>
                      rect_top box \<le> snd (pos (h p)) \<and> snd (pos (h p)) < rect_bottom box) grp))"
proof -
  have "points_in_box h box grp =
     filter (\<lambda>p. rect_left box \<le> fst (pos (h p)) \<and> fst (pos (h p)) < rect_right box \<and>
                 rect_top box \<le> snd (pos (h p)) \<and> snd (pos (h p)) < rect_bottom box) grp"
    unfolding points_in_box_def
    by (rule filter_cong) (auto simp: rect_contains_def pos_rect_def rect_right_def rect_bottom_def)
  then show ?thesis by simp
qed

text \<open>
  Claim C5 as stated, with the inclusive test, fails: after the first group the left half
  (0, 0, 50, 100) is a working rectangle, the point at (50, 70) of the second group lies
  on its right edge, and the code does not use it to subdivide that rectangle, which
  stays whole in the result.
\<close>

theorem inclusive_containment_counterexample:
  "group_points edge_example = [[1], [2]] \<and>
   pos (store edge_example 2) = (50, 70) \<and>
   inside_inclusive (Rect 0 0 50 100) (pos (store edge_example 2)) \<and>
   points_in_box (store edge_example) (Rect 0 0 50 100) [2] = [] \<and>
   set (points_in_box (store edge_example) (Rect 0 0 50 100) [2])
     \<noteq> {p \<in> set [2]. inside_inclusive (Rect 0 0 50 100) (pos (store edge_example p))} \<and>
   calculate_boxes edge_example = [Rect 0 0 50 100, Rect 50 0 50 70, Rect 50 70 50 30]"
  by (simp add: edge_example_def eval_defs box_defs inside_inclusive_def)

subsection \<open>Cuts out of order\<close>

text \<open>
  Claim C1 at a state the commands reach: two vertical cuts of one priority, placed at
  x = 70 and then at x = 30. \<^verbatim>\<open>subdivide_box\<close> takes the cuts in the order of the list,
  so the result holds a rectangle of width -40, and its first and third rectangle both
  cover the pixel (50, 50).
\<close>

theorem calculate_boxes_unsorted_cuts:
  "split_points overlap_example = [1, 2] \<and>
   store overlap_example 1 = \<lparr>pos = (70, 50), horizontal = None, vertical = Some (0, 100), index = 0\<rparr> \<and>
   store overlap_example 2 = \<lparr>pos = (30, 50), horizontal = None, vertical = Some (0, 100), index = 0\<rparr> \<and>
   calculate_boxes overlap_example = [Rect 0 0 70 100, Rect 70 0 (- 40) 100, Rect 30 0 70 100] \<and>
   (50, 50) \<in> region (Rect 0 0 70 100) \<inter> region (Rect 30 0 70 100)"
  by (simp add: overlap_example_def eval_defs box_defs region_def)

end
